theory Spec2Isabelle
  imports Main "HOL-Library.While_Combinator" "HOL-Library.Signed_Division"
begin

section \<open>JavaScript values and \<open>assert\<close>\<close>

text \<open>
  The helpers throw one kind of error, \<^verbatim>\<open>Error('Assertion failed')\<close>. Calling a value that
  is not a function is JavaScript's own \<^verbatim>\<open>TypeError\<close>. A result is \<open>error + 'a\<close>, with
  \<open>Inl\<close> for a throw.
\<close>

datatype error = AssertionFailed | TypeError

text \<open>
  A number is an IEEE double. The model has the integer-valued doubles \<open>Num k\<close>, the two
  infinities and \<open>NaN\<close>: the helpers below only receive array lengths, indices, signs and
  the integers a caller passes. Fractions and the negative zero are outside the model.
\<close>

datatype number = NaN | MinusInfinity | Infinity | Num int

text \<open>
  A double has a significand of 53 bits. \<open>ulp m\<close> is the distance between neighbouring
  doubles at the magnitude \<open>m\<close>: 1 below \<open>2^53\<close>, 2 from there to \<open>2^54\<close>, and so on.
  \<open>round_double k\<close> is the integer among those doubles nearest to \<open>k\<close>, a tie going to the
  even significand, as every arithmetic operation of JavaScript rounds its exact result.
  An integer \<open>k\<close> is itself a double when \<open>round_double k = k\<close> and \<open>\<bar>k\<bar> < 2^1024\<close>; a
  rounded result from \<open>2^1024\<close> on is an infinity (\<open>js_number\<close>).
\<close>

fun ulp :: "nat \<Rightarrow> nat" where
  "ulp m = (if m < 2 ^ 53 then 1 else 2 * ulp (m div 2))"

declare ulp.simps [simp del]

definition round_double :: "int \<Rightarrow> int" where
  "round_double k =
     (let m = nat \<bar>k\<bar>; q = ulp m; lo = (m div q) * q; r = m mod q
      in sgn k * int (if 2 * r < q then lo
                      else if q < 2 * r then lo + q
                      else if even (m div q) then lo else lo + q))"

definition js_number :: "int \<Rightarrow> number" where
  "js_number k =
     (let r = round_double k
      in if 2 ^ 1024 \<le> r then Infinity
         else if r \<le> - (2 ^ 1024) then MinusInfinity
         else Num r)"

text \<open>
  The comparisons \<^verbatim>\<open><\<close> and \<^verbatim>\<open><=\<close> of JavaScript on numbers: both are false as soon as an
  operand is \<open>NaN\<close>. They are the order of the type \<open>number\<close>, which is not a linear order.
\<close>

instantiation number :: ord
begin

fun less_number :: "number \<Rightarrow> number \<Rightarrow> bool" where
  "less_number NaN b = False"
| "less_number a NaN = False"
| "less_number a MinusInfinity = False"
| "less_number MinusInfinity b = True"
| "less_number Infinity b = False"
| "less_number (Num a) Infinity = True"
| "less_number (Num a) (Num b) = (a < b)"

fun less_eq_number :: "number \<Rightarrow> number \<Rightarrow> bool" where
  "less_eq_number NaN b = False"
| "less_eq_number a NaN = False"
| "less_eq_number MinusInfinity b = True"
| "less_eq_number a MinusInfinity = False"
| "less_eq_number a Infinity = True"
| "less_eq_number Infinity (Num b) = False"
| "less_eq_number (Num a) (Num b) = (a \<le> b)"

instance ..

end

text \<open>
  A value is \<^verbatim>\<open>undefined\<close>, \<^verbatim>\<open>null\<close>, a boolean, a number, a string, an object with its own
  properties in order, or a function; \<open>'f\<close> is what a function value denotes. Symbols
  and bigints are left out.
\<close>

datatype 'f val =
    Undefined
  | Null
  | Boolean bool
  | Number number
  | String string
  | Object "(string \<times> 'f val) list"
  | Function 'f

text \<open>The conversion to a boolean that \<^verbatim>\<open>!value\<close>, \<^verbatim>\<open>a && b\<close> and \<^verbatim>\<open>if\<close> apply.\<close>

fun truthy_number :: "number \<Rightarrow> bool" where
  "truthy_number NaN = False"
| "truthy_number MinusInfinity = True"
| "truthy_number Infinity = True"
| "truthy_number (Num n) = (n \<noteq> 0)"

fun ToBoolean :: "'f val \<Rightarrow> bool" where
  "ToBoolean Undefined = False"
| "ToBoolean Null = False"
| "ToBoolean (Boolean b) = b"
| "ToBoolean (Number n) = truthy_number n"
| "ToBoolean (String s) = (s \<noteq> [])"
| "ToBoolean (Object ps) = True"
| "ToBoolean (Function f) = True"

text \<open>
  \<^verbatim>\<open>
  export function assert(value) {
    if (!value) { throw Error('Assertion failed') }
    return value
  }
  \<close>
\<close>

definition assert :: "'f val \<Rightarrow> error + 'f val" where
  "assert value = (if \<not> ToBoolean value then Inl AssertionFailed else Inr value)"

section \<open>Ordered search: \<open>binarySearchWith\<close>, \<open>lowerBound\<close>, \<open>upperBound\<close>\<close>

text \<open>
  The source:
  \<^verbatim>\<open>
  const binarySearchWith = compare => (xs, x, key = x => x) => {
    let start = 0
    let end = xs.length
    while (start < end) {
      const i = Math.floor((start + end) / 2)
      if (compare(key(xs[i]), x)) { start = i + 1 } else { end = i }
    }
    return start
  }
  export const lowerBound = binarySearchWith((a, b) => a < b)
  export const upperBound = binarySearchWith((a, b) => a <= b)
  \<close>
  The loop state is the pair \<open>(start, end)\<close> of array indices (natural numbers); \<open>key\<close>
  is an argument of the model, and a call that leaves it out passes the identity
  \<open>\<lambda>v. v\<close>.
  The loop is a \<open>while_option\<close>, so that not terminating would be the value \<open>None\<close> and
  termination is a theorem, not an assumption of the model. The keys and the target are
  compared with JavaScript's \<^verbatim>\<open><\<close> and \<^verbatim>\<open><=\<close>, the order of their type: on \<open>number\<close> the
  comparisons above, false at \<open>NaN\<close>; on numbers other than \<open>NaN\<close> (as \<open>int\<close>) and on
  strings a linear order.
\<close>

definition binarySearchBody ::
  "('k \<Rightarrow> 'x \<Rightarrow> bool) \<Rightarrow> 'a list \<Rightarrow> 'x \<Rightarrow> ('a \<Rightarrow> 'k) \<Rightarrow> nat \<times> nat \<Rightarrow> nat \<times> nat" where
  "binarySearchBody compare xs x key = (\<lambda>(start, end').
     let i = (start + end') div 2
     in if compare (key (xs ! i)) x then (i + 1, end') else (start, i))"

definition binarySearchWith ::
  "('k \<Rightarrow> 'x \<Rightarrow> bool) \<Rightarrow> 'a list \<Rightarrow> 'x \<Rightarrow> ('a \<Rightarrow> 'k) \<Rightarrow> nat option" where
  "binarySearchWith compare xs x key =
     map_option fst
       (while_option (\<lambda>(start, end'). start < end')
          (binarySearchBody compare xs x key) (0, length xs))"

definition lowerBound :: "'a list \<Rightarrow> 'k::ord \<Rightarrow> ('a \<Rightarrow> 'k) \<Rightarrow> nat option" where
  "lowerBound = binarySearchWith (\<lambda>a b. a < b)"

definition upperBound :: "'a list \<Rightarrow> 'k::ord \<Rightarrow> ('a \<Rightarrow> 'k) \<Rightarrow> nat option" where
  "upperBound = binarySearchWith (\<lambda>a b. a \<le> b)"

section \<open>\<open>mod\<close>\<close>

text \<open>
  \<^verbatim>\<open>
  export function mod(dividend, divisor) {
    let remainder = dividend % divisor
    if (remainder && Math.sign(dividend) != Math.sign(divisor)) { remainder += divisor }
    return remainder
  }
  \<close>
  The arguments are integer-valued doubles. JavaScript's \<^verbatim>\<open>%\<close> truncates towards zero, so
  its result has the sign of the dividend (\<open>smod\<close> on \<open>int\<close>); it is exact, and \<open>NaN\<close> for
  a zero divisor. \<^verbatim>\<open>Math.sign\<close> is \<open>sgn\<close>. The sum \<^verbatim>\<open>remainder += divisor\<close> is an addition
  of doubles: the exact sum, rounded.
\<close>

definition js_remainder :: "int \<Rightarrow> int \<Rightarrow> number" where
  "js_remainder a b = (if b = 0 then NaN else Num (a smod b))"

fun js_plus :: "number \<Rightarrow> number \<Rightarrow> number" where
  "js_plus NaN b = NaN"
| "js_plus a NaN = NaN"
| "js_plus Infinity MinusInfinity = NaN"
| "js_plus MinusInfinity Infinity = NaN"
| "js_plus Infinity b = Infinity"
| "js_plus MinusInfinity b = MinusInfinity"
| "js_plus (Num a) Infinity = Infinity"
| "js_plus (Num a) MinusInfinity = MinusInfinity"
| "js_plus (Num a) (Num b) = js_number (a + b)"

definition mod_js :: "int \<Rightarrow> int \<Rightarrow> number" where
  "mod_js dividend divisor =
     (let remainder = js_remainder dividend divisor
      in if truthy_number remainder \<and> sgn dividend \<noteq> sgn divisor
         then js_plus remainder (Num divisor)
         else remainder)"

section \<open>\<open>range\<close>, in its two copies\<close>

text \<open>
  The copy with the sign test (the file with \<open>lowerBound\<close> and \<open>mod\<close>):
  \<^verbatim>\<open>
  export function* range(...args) {
    assert(args.length)
    const [start, end, step = 1] = args.length > 1 ? args : [0, args[0]]
    const sign = assert(Math.sign(end - start))
    for (let i = start; (end - i) * sign > 0; i += step) { yield i }
  }
  \<close>
  The copy of \<^verbatim>\<open>util.js\<close>:
  \<^verbatim>\<open>
  export function* range(...args) {
    assert(args.length)
    const [start, end, step = 1] = args.length > 1 ? args : [0, args[0]]
    for (let i = start; i < end; i += step) { yield i }
  }
  \<close>
  Both are generators: the body runs when the caller iterates, and the loop need not end
  (a step of 0). The model is the outcome of iterating, following the loop for at most
  \<open>n\<close> values: the error thrown, or the values yielded. The arguments are integers, and
  the loop is followed on exact integers, as the code runs while its values stay below
  \<open>2^53\<close>;
  \<open>range_args\<close> is the destructuring, reached only after \<^verbatim>\<open>assert(args.length)\<close>, that is
  with at least one argument. In \<open>range_sign\<close> the value that \<open>assert\<close> returns is the
  number it was given, so the last case of the inner \<open>case\<close> is never taken.
\<close>

definition range_args :: "int list \<Rightarrow> int \<times> int \<times> int" where
  "range_args args =
     (if length args > 1
      then (args ! 0, args ! 1, if length args > 2 then args ! 2 else 1)
      else (0, args ! 0, 1))"

fun range_sign_loop :: "nat \<Rightarrow> int \<Rightarrow> int \<Rightarrow> int \<Rightarrow> int \<Rightarrow> int list" where
  "range_sign_loop 0 i end' sign step = []"
| "range_sign_loop (Suc n) i end' sign step =
     (if (end' - i) * sign > 0 then i # range_sign_loop n (i + step) end' sign step else [])"

definition range_sign :: "int list \<Rightarrow> nat \<Rightarrow> error + int list" where
  "range_sign args n =
     (case assert (Number (Num (int (length args))) :: unit val) of
        Inl e \<Rightarrow> Inl e
      | Inr _ \<Rightarrow>
          (case range_args args of (start, end', step) \<Rightarrow>
             (case assert (Number (Num (sgn (end' - start))) :: unit val) of
                Inl e \<Rightarrow> Inl e
              | Inr (Number (Num sign)) \<Rightarrow> Inr (range_sign_loop n start end' sign step)
              | Inr _ \<Rightarrow> Inr [])))"

fun range_util_loop :: "nat \<Rightarrow> int \<Rightarrow> int \<Rightarrow> int \<Rightarrow> int list" where
  "range_util_loop 0 i end' step = []"
| "range_util_loop (Suc n) i end' step =
     (if i < end' then i # range_util_loop n (i + step) end' step else [])"

definition range_util :: "int list \<Rightarrow> nat \<Rightarrow> error + int list" where
  "range_util args n =
     (case assert (Number (Num (int (length args))) :: unit val) of
        Inl e \<Rightarrow> Inl e
      | Inr _ \<Rightarrow>
          (case range_args args of (start, end', step) \<Rightarrow>
             Inr (range_util_loop n start end' step)))"

section \<open>Keyed dispatch: \<open>switchOnKey\<close>\<close>

text \<open>
  \<^verbatim>\<open>
  export function switchOnKey(object, handlers, defaultHandler) {
    let foundKey
    let handler = defaultHandler
    for (const [key, h] of Object.entries(handlers)) {
      if (Object.hasOwnProperty.call(object, key)) {
        assert(!foundKey)
        foundKey = key
        handler = h
      }
    }
    return assert(handler)(object)
  }
  \<close>
  The function is the same in both files. The inspected object is the list of its own
  properties, whose values are not looked at. The handler mapping is the list
  \<^verbatim>\<open>Object.entries(handlers)\<close> of its own properties in the mapping's order, so its keys are
  pairwise distinct. A handler is a value; when it is a function it maps the object to a
  result. \<open>foundKey\<close> starts \<^verbatim>\<open>undefined\<close> and then holds a key, a string.
\<close>

definition hasOwnProperty :: "(string \<times> 'p) list \<Rightarrow> string \<Rightarrow> bool" where
  "hasOwnProperty object key = (key \<in> set (map fst object))"

fun switchOnKey_loop ::
  "(string \<times> 'p) list \<Rightarrow> (string \<times> 'f val) list \<Rightarrow> 'f val \<Rightarrow> 'f val \<Rightarrow>
     error + ('f val \<times> 'f val)" where
  "switchOnKey_loop object [] foundKey handler = Inr (foundKey, handler)"
| "switchOnKey_loop object ((key, h) # entries) foundKey handler =
     (if hasOwnProperty object key
      then (case assert (Boolean (\<not> ToBoolean foundKey) :: 'f val) of
              Inl e \<Rightarrow> Inl e
            | Inr _ \<Rightarrow> switchOnKey_loop object entries (String key) h)
      else switchOnKey_loop object entries foundKey handler)"

definition switchOnKey ::
  "(string \<times> 'p) list \<Rightarrow> (string \<times> ((string \<times> 'p) list \<Rightarrow> 'r) val) list \<Rightarrow>
     ((string \<times> 'p) list \<Rightarrow> 'r) val \<Rightarrow> error + 'r" where
  "switchOnKey object handlers defaultHandler =
     (case switchOnKey_loop object handlers Undefined defaultHandler of
        Inl e \<Rightarrow> Inl e
      | Inr (foundKey, handler) \<Rightarrow>
          (case assert handler of
             Inl e \<Rightarrow> Inl e
           | Inr (Function f) \<Rightarrow> Inr (f object)
           | Inr _ \<Rightarrow> Inl TypeError))"

text \<open>The entries of the mapping whose key is an own property of the object, in order.\<close>

definition matching :: "(string \<times> 'p) list \<Rightarrow> (string \<times> 'f val) list \<Rightarrow> (string \<times> 'f val) list" where
  "matching object handlers = filter (\<lambda>(key, h). hasOwnProperty object key) handlers"

section \<open>Properties of \<open>assert\<close>\<close>

text \<open>
  Claim C8. For every input value, \<open>assert\<close> fails with the assertion error exactly when
  the value taken as a condition is false (its conversion to a boolean, which \<^verbatim>\<open>!value\<close>
  tests), and otherwise returns its input unchanged.
\<close>

theorem assert_contract:
  "(assert v = Inl AssertionFailed \<longleftrightarrow> \<not> ToBoolean v) \<and>
   ((\<exists>e. assert v = Inl e) \<longleftrightarrow> \<not> ToBoolean v) \<and>
   (ToBoolean v \<longrightarrow> assert v = Inr v)"
  by (simp add: assert_def)

theorem assert_contract_witness:
  "ToBoolean (String ''ok'' :: unit val) \<and> assert (String ''ok'' :: unit val) = Inr (String ''ok'') \<and>
   \<not> ToBoolean (Number (Num 0) :: unit val) \<and>
   assert (Number (Num 0) :: unit val) = Inl AssertionFailed \<and>
   assert (Boolean False :: unit val) = Inl AssertionFailed"
  using assert_contract [of "String ''ok'' :: unit val"]
    assert_contract [of "Number (Num 0) :: unit val"]
    assert_contract [of "Boolean False :: unit val"]
  by simp

section \<open>Properties of the ordered search\<close>

text \<open>
  One iteration on a non-empty window leaves a window inside it that is strictly narrower.
\<close>

lemma binarySearchBody_shrinks:
  assumes "start < end'" and "binarySearchBody compare xs x key (start, end') = (s, e)"
  shows "start \<le> s \<and> s \<le> e \<and> e \<le> end' \<and> e - s < end' - start"
  using assms by (auto simp: binarySearchBody_def Let_def split: if_splits)

text \<open>
  The window starts as \<open>[0, length xs)\<close> and an iteration keeps its end inside the array,
  so the index the loop reads is inside the array: \<^verbatim>\<open>xs[i]\<close> is never \<^verbatim>\<open>undefined\<close>.
\<close>

lemma binarySearch_read_in_range:
  assumes "start < end'" and "end' \<le> length xs"
    and "binarySearchBody compare xs x key (start, end') = (s, e)"
  shows "(start + end') div 2 < length xs \<and> e \<le> length xs"
proof
  from assms(1,2) show "(start + end') div 2 < length xs" by linarith
  from binarySearchBody_shrinks [OF assms(1,3)] assms(2) show "e \<le> length xs" by simp
qed

lemma binarySearchWith_terminates:
  "\<exists>r. binarySearchWith compare xs x key = Some r"
proof -
  have "\<exists>t. while_option (\<lambda>(start, end'). start < end')
          (binarySearchBody compare xs x key) (0, length xs) = Some t"
  proof (rule measure_while_option_Some
      [where P = "\<lambda>_. True" and f = "\<lambda>(start, end'). end' - start"])
    fix s :: "nat \<times> nat"
    assume "case s of (start, end') \<Rightarrow> start < end'"
    then obtain a b where s: "s = (a, b)" and ab: "a < b"
      by (cases s) auto
    obtain a' b' where step: "binarySearchBody compare xs x key (a, b) = (a', b')"
      by (cases "binarySearchBody compare xs x key (a, b)") auto
    from binarySearchBody_shrinks [OF ab step]
    show "True \<and> (case binarySearchBody compare xs x key s of (start, end') \<Rightarrow> end' - start)
            < (case s of (start, end') \<Rightarrow> end' - start)"
      by (simp add: s step)
  qed simp
  then show ?thesis
    by (auto simp: binarySearchWith_def)
qed

text \<open>
  Claim C9. For every finite sequence, value and key function, both \<open>lowerBound\<close> and
  \<open>upperBound\<close> return: the loop ends, since an iteration run on a non-empty window
  \<open>[start, end)\<close> leaves a window inside it that is strictly narrower.
\<close>

theorem search_terminates:
  "(\<exists>r. lowerBound xs x key = Some r) \<and> (\<exists>r. upperBound xs x key = Some r) \<and>
   (\<forall>compare start end'. start < end' \<longrightarrow>
      (case binarySearchBody compare xs x key (start, end') of
         (s, e) \<Rightarrow> start \<le> s \<and> e \<le> end' \<and> e - s < end' - start))"
proof (intro conjI allI impI)
  show "\<exists>r. lowerBound xs x key = Some r"
    unfolding lowerBound_def by (rule binarySearchWith_terminates)
  show "\<exists>r. upperBound xs x key = Some r"
    unfolding upperBound_def by (rule binarySearchWith_terminates)
next
  fix compare :: "'b \<Rightarrow> 'b \<Rightarrow> bool" and start end' :: nat
  assume lt: "start < end'"
  obtain s e where step: "binarySearchBody compare xs x key (start, end') = (s, e)"
    by (cases "binarySearchBody compare xs x key (start, end')") auto
  from binarySearchBody_shrinks [OF lt step]
  show "case binarySearchBody compare xs x key (start, end') of
          (s, e) \<Rightarrow> start \<le> s \<and> e \<le> end' \<and> e - s < end' - start"
    by (simp add: step)
qed

theorem search_terminates_witness:
  "lowerBound [1, 3, 3, 5 :: int] 3 (\<lambda>v. v) = Some 1 \<and>
   upperBound [1, 3, 3, 5 :: int] 3 (\<lambda>v. v) = Some 3 \<and>
   (0::nat) < 4 \<and>
   binarySearchBody (\<lambda>a b. a < b) [1, 3, 3, 5 :: int] 3 (\<lambda>v. v) (0, 4) = (0, 2)"
  using search_terminates [of "[1, 3, 3, 5 :: int]" 3 "\<lambda>v. v"]
  by (simp add: lowerBound_def upperBound_def binarySearchWith_def binarySearchBody_def
      while_option_unfold)

text \<open>
  The search with any comparison that, read along the array, is true on a prefix and false
  after it returns the length of that prefix. The invariant of the loop: the comparison is
  true left of \<open>start\<close> and false from \<open>end\<close> on.
\<close>

lemma binarySearchWith_partition:
  assumes mono: "\<And>i j. i \<le> j \<Longrightarrow> j < length xs \<Longrightarrow> compare (key (xs ! j)) x \<Longrightarrow>
                   compare (key (xs ! i)) x"
  shows "\<exists>r. binarySearchWith compare xs x key = Some r \<and> r \<le> length xs \<and>
           (\<forall>j<r. compare (key (xs ! j)) x) \<and>
           (\<forall>j. r \<le> j \<and> j < length xs \<longrightarrow> \<not> compare (key (xs ! j)) x)"
proof -
  let ?b = "\<lambda>(start, end'). start < (end'::nat)"
  let ?c = "binarySearchBody compare xs x key"
  let ?p = "\<lambda>j. compare (key (xs ! j)) x"
  let ?P = "\<lambda>(s, e). s \<le> e \<and> e \<le> length xs \<and> (\<forall>j<s. ?p j) \<and>
              (\<forall>j. e \<le> j \<and> j < length xs \<longrightarrow> \<not> ?p j)"
  obtain r where r: "binarySearchWith compare xs x key = Some r"
    using binarySearchWith_terminates [of compare xs x key] by auto
  then obtain t where t: "while_option ?b ?c (0, length xs) = Some t" and rt: "r = fst t"
    by (auto simp: binarySearchWith_def)
  have step: "?P (?c s)" if "?P s" "?b s" for s
  proof -
    obtain a b where s: "s = (a, b)" by (cases s)
    let ?i = "(a + b) div 2"
    from that s have ab: "a < b" "b \<le> length xs" and lo: "\<forall>j<a. ?p j"
      and hi: "\<forall>j. b \<le> j \<and> j < length xs \<longrightarrow> \<not> ?p j" by auto
    have i: "a \<le> ?i" "?i < b" "?i < length xs" using ab by linarith+
    show ?thesis
    proof (cases "?p ?i")
      case True
      have "\<forall>j<?i + 1. ?p j"
      proof (intro allI impI)
        fix j assume "j < ?i + 1"
        then have "j \<le> ?i" by simp
        from mono [OF this i(3) True] show "?p j" .
      qed
      with True i ab hi show ?thesis
        by (simp add: s binarySearchBody_def Let_def)
    next
      case False
      have "\<forall>j. ?i \<le> j \<and> j < length xs \<longrightarrow> \<not> ?p j"
      proof (intro allI impI notI)
        fix j assume "?i \<le> j \<and> j < length xs" and "?p j"
        then have "?p ?i" using mono [of ?i j] by blast
        with False show False ..
      qed
      with False i ab lo show ?thesis
        by (simp add: s binarySearchBody_def Let_def)
    qed
  qed
  have "?P t"
    by (rule while_option_rule [where P = ?P, OF _ t]) (use step in auto)
  moreover have "\<not> ?b t"
    using while_option_stop [OF t] .
  ultimately show ?thesis
    using r rt by (cases t) auto
qed

lemma sorted_key_nth_mono:
  assumes "sorted (map key xs)" and "i \<le> j" and "j < length xs"
  shows "key (xs ! i) \<le> key (xs ! j)"
  using assms sorted_iff_nth_mono [of "map key xs"] by auto

lemma lowerBound_partition:
  fixes key :: "'a \<Rightarrow> 'k::linorder"
  assumes "sorted (map key xs)"
  shows "\<exists>r. lowerBound xs x key = Some r \<and> r \<le> length xs \<and>
           (\<forall>j<r. key (xs ! j) < x) \<and>
           (\<forall>j. r \<le> j \<and> j < length xs \<longrightarrow> x \<le> key (xs ! j))"
proof -
  have "\<exists>r. binarySearchWith (\<lambda>a b. a < b) xs x key = Some r \<and> r \<le> length xs \<and>
           (\<forall>j<r. key (xs ! j) < x) \<and>
           (\<forall>j. r \<le> j \<and> j < length xs \<longrightarrow> \<not> key (xs ! j) < x)"
  proof (rule binarySearchWith_partition)
    fix i j assume "i \<le> j" "j < length xs" "key (xs ! j) < x"
    with sorted_key_nth_mono [OF assms, of i j] show "key (xs ! i) < x"
      by simp
  qed
  then show ?thesis
    by (simp add: lowerBound_def not_less)
qed

lemma upperBound_partition:
  fixes key :: "'a \<Rightarrow> 'k::linorder"
  assumes "sorted (map key xs)"
  shows "\<exists>r. upperBound xs x key = Some r \<and> r \<le> length xs \<and>
           (\<forall>j<r. key (xs ! j) \<le> x) \<and>
           (\<forall>j. r \<le> j \<and> j < length xs \<longrightarrow> x < key (xs ! j))"
proof -
  have "\<exists>r. binarySearchWith (\<lambda>a b. a \<le> b) xs x key = Some r \<and> r \<le> length xs \<and>
           (\<forall>j<r. key (xs ! j) \<le> x) \<and>
           (\<forall>j. r \<le> j \<and> j < length xs \<longrightarrow> \<not> key (xs ! j) \<le> x)"
  proof (rule binarySearchWith_partition)
    fix i j assume "i \<le> j" "j < length xs" "key (xs ! j) \<le> x"
    with sorted_key_nth_mono [OF assms, of i j] show "key (xs ! i) \<le> x"
      by simp
  qed
  then show ?thesis
    by (simp add: upperBound_def not_le)
qed

lemma search_examples:
  "lowerBound [1, 3, 3, 5 :: int] 3 (\<lambda>v. v) = Some 1"
  "lowerBound [1, 3, 3, 5 :: int] 4 (\<lambda>v. v) = Some 3"
  "upperBound [1, 3, 3, 5 :: int] 3 (\<lambda>v. v) = Some 3"
  "upperBound [1, 3, 3, 5 :: int] 4 (\<lambda>v. v) = Some 3"
  by (simp_all add: lowerBound_def upperBound_def binarySearchWith_def binarySearchBody_def
      while_option_unfold)

text \<open>
  Claim C2, as the specification states it, is about every target value. At the target
  \<open>NaN\<close> every comparison \<^verbatim>\<open>key(xs[i]) < x\<close> is false, so the window closes to the left:
  \<open>lowerBound [1,3,3,5] NaN\<close> is 0, although no key is \<open>\<ge> NaN\<close> and the claim asks for
  the length of the sequence.
\<close>

theorem lowerBound_NaN_target_counterexample:
  "sorted_wrt (\<le>) [Num 1, Num 3, Num 3, Num 5] \<and>
   lowerBound [Num 1, Num 3, Num 3, Num 5] NaN (\<lambda>v. v) = Some 0 \<and>
   \<not> NaN \<le> Num 1 \<and> \<not> NaN \<le> Num 3 \<and> \<not> NaN \<le> Num 5 \<and>
   (0::nat) \<noteq> length [Num 1, Num 3, Num 3, Num 5]"
  by (simp add: lowerBound_def binarySearchWith_def binarySearchBody_def while_option_unfold)

text \<open>
  Claim C2, amended. For every sequence \<open>xs\<close> sorted ascending by the key function, every
  key function and every target \<open>x\<close> comparable with the keys (keys and target of one
  linearly ordered type, such as numbers other than \<open>NaN\<close>, or strings),
  \<open>lowerBound xs x key\<close> returns an index \<open>i\<close> in \<open>[0, length xs]\<close> that is the smallest
  index with \<open>key (xs[i]) \<ge> x\<close>: every smaller index has a key that is not \<open>\<ge> x\<close>, and
  \<open>i\<close> is the length of \<open>xs\<close> when no index has such a key. In particular, with the
  default key, \<open>lowerBound [1,3,3,5] 3 = 1\<close> and \<open>lowerBound [1,3,3,5] 4 = 3\<close>.
\<close>

theorem lowerBound_smallest_index:
  fixes key :: "'a \<Rightarrow> 'k::linorder"
  shows "(sorted (map key xs) \<longrightarrow>
      (\<exists>i. lowerBound xs x key = Some i \<and> i \<le> length xs \<and>
         (i < length xs \<longrightarrow> x \<le> key (xs ! i)) \<and>
         (\<forall>j<i. \<not> x \<le> key (xs ! j)))) \<and>
    lowerBound [1, 3, 3, 5 :: int] 3 (\<lambda>v. v) = Some 1 \<and>
    lowerBound [1, 3, 3, 5 :: int] 4 (\<lambda>v. v) = Some 3"
proof (intro conjI impI)
  assume "sorted (map key xs)"
  from lowerBound_partition [OF this, of x]
  show "\<exists>i. lowerBound xs x key = Some i \<and> i \<le> length xs \<and>
         (i < length xs \<longrightarrow> x \<le> key (xs ! i)) \<and> (\<forall>j<i. \<not> x \<le> key (xs ! j))"
    by (auto simp: not_le)
qed (simp_all add: search_examples)

theorem lowerBound_smallest_index_witness:
  "sorted (map (\<lambda>v. v) [2, 4, 4, 7 :: int]) \<and>
   lowerBound [2, 4, 4, 7 :: int] 4 (\<lambda>v. v) = Some 1 \<and> (1::nat) \<le> length [2, 4, 4, 7 :: int] \<and>
   (4::int) \<le> [2, 4, 4, 7] ! 1 \<and> \<not> (4::int) \<le> [2, 4, 4, 7] ! 0"
  using lowerBound_smallest_index [of "\<lambda>v. v" "[2, 4, 4, 7 :: int]" 4]
  by (simp add: lowerBound_def binarySearchWith_def binarySearchBody_def while_option_unfold)

text \<open>
  Claim C3, as the specification states it, is about every target value. At the target
  \<open>NaN\<close> every comparison \<^verbatim>\<open>key(xs[i]) <= x\<close> is false: \<open>upperBound [1,3,3,5] NaN\<close> is 0,
  although no key is \<open>> NaN\<close> and the claim asks for the length of the sequence.
\<close>

theorem upperBound_NaN_target_counterexample:
  "sorted_wrt (\<le>) [Num 1, Num 3, Num 3, Num 5] \<and>
   upperBound [Num 1, Num 3, Num 3, Num 5] NaN (\<lambda>v. v) = Some 0 \<and>
   \<not> NaN < Num 1 \<and> \<not> NaN < Num 3 \<and> \<not> NaN < Num 5 \<and>
   (0::nat) \<noteq> length [Num 1, Num 3, Num 3, Num 5]"
  by (simp add: upperBound_def binarySearchWith_def binarySearchBody_def while_option_unfold)

text \<open>
  Claim C3, amended. For every sequence \<open>xs\<close> sorted ascending by the key function, every
  key function and every target \<open>x\<close> comparable with the keys (keys and target of one
  linearly ordered type, such as numbers other than \<open>NaN\<close>, or strings),
  \<open>upperBound xs x key\<close> returns an index \<open>i\<close> in \<open>[0, length xs]\<close> that is the smallest
  index with \<open>key (xs[i]) > x\<close>, and the length of \<open>xs\<close> when no index has such a key. In
  particular, with the default key, \<open>upperBound [1,3,3,5] 3 = 3\<close> and
  \<open>upperBound [1,3,3,5] 4 = 3\<close>.
\<close>

theorem upperBound_smallest_index:
  fixes key :: "'a \<Rightarrow> 'k::linorder"
  shows "(sorted (map key xs) \<longrightarrow>
      (\<exists>i. upperBound xs x key = Some i \<and> i \<le> length xs \<and>
         (i < length xs \<longrightarrow> x < key (xs ! i)) \<and>
         (\<forall>j<i. \<not> x < key (xs ! j)))) \<and>
    upperBound [1, 3, 3, 5 :: int] 3 (\<lambda>v. v) = Some 3 \<and>
    upperBound [1, 3, 3, 5 :: int] 4 (\<lambda>v. v) = Some 3"
proof (intro conjI impI)
  assume "sorted (map key xs)"
  from upperBound_partition [OF this, of x]
  show "\<exists>i. upperBound xs x key = Some i \<and> i \<le> length xs \<and>
         (i < length xs \<longrightarrow> x < key (xs ! i)) \<and> (\<forall>j<i. \<not> x < key (xs ! j))"
    by (auto simp: not_less)
qed (simp_all add: search_examples)

theorem upperBound_smallest_index_witness:
  "sorted (map (\<lambda>v. v) [2, 4, 4, 7 :: int]) \<and>
   upperBound [2, 4, 4, 7 :: int] 4 (\<lambda>v. v) = Some 3 \<and> (3::nat) \<le> length [2, 4, 4, 7 :: int] \<and>
   (4::int) < [2, 4, 4, 7] ! 3 \<and> \<not> (4::int) < [2, 4, 4, 7] ! 2"
  using upperBound_smallest_index [of "\<lambda>v. v" "[2, 4, 4, 7 :: int]" 4]
  by (simp add: upperBound_def binarySearchWith_def binarySearchBody_def while_option_unfold)

text \<open>
  Claim C6. For every sequence \<open>xs\<close> sorted ascending by the key function and every value
  \<open>x\<close>, \<open>lowerBound xs x key \<le> upperBound xs x key\<close>.
\<close>

theorem lowerBound_le_upperBound:
  fixes key :: "'a \<Rightarrow> 'k::linorder"
  assumes "sorted (map key xs)"
  shows "\<exists>l u. lowerBound xs x key = Some l \<and> upperBound xs x key = Some u \<and> l \<le> u"
proof -
  from lowerBound_partition [OF assms, of x] obtain l where
    l: "lowerBound xs x key = Some l" "l \<le> length xs" "\<forall>j<l. key (xs ! j) < x"
    by blast
  from upperBound_partition [OF assms, of x] obtain u where
    u: "upperBound xs x key = Some u"
      "\<forall>j. u \<le> j \<and> j < length xs \<longrightarrow> x < key (xs ! j)" by blast
  have "l \<le> u"
  proof (rule ccontr)
    assume "\<not> l \<le> u"
    then have "u < l" by simp
    with l(2) have "u < length xs" by simp
    with u(2) have "x < key (xs ! u)" by simp
    moreover from \<open>u < l\<close> l(3) have "key (xs ! u) < x" by simp
    ultimately show False by simp
  qed
  with l(1) u(1) show ?thesis by blast
qed

theorem lowerBound_le_upperBound_witness:
  "sorted (map (\<lambda>v. v) [1, 3, 3, 5 :: int]) \<and>
   lowerBound [1, 3, 3, 5 :: int] 3 (\<lambda>v. v) = Some 1 \<and>
   upperBound [1, 3, 3, 5 :: int] 3 (\<lambda>v. v) = Some 3 \<and> (1::nat) \<le> 3"
  using lowerBound_le_upperBound [of "\<lambda>v. v" "[1, 3, 3, 5 :: int]" 3]
  by (simp add: search_examples)



section \<open>Properties of \<open>mod\<close>\<close>

lemma smod_zero_iff:
  fixes k l :: int
  shows "(k smod l = 0) = (l dvd k)"
proof -
  have "(k smod l = 0) = (\<bar>k\<bar> mod \<bar>l\<bar> = 0)"
    by (auto simp: signed_modulo_int_def sgn_if)
  also have "\<dots> = (\<bar>l\<bar> dvd \<bar>k\<bar>)"
    by (simp add: dvd_eq_mod_eq_0)
  also have "\<dots> = (l dvd k)"
    by simp
  finally show ?thesis .
qed

text \<open>Below \<open>2^53\<close> every integer is a double, and rounding leaves it as it is.\<close>

lemma round_double_exact:
  assumes "\<bar>k\<bar> < 2 ^ 53"
  shows "round_double k = k"
proof -
  from assms have "nat \<bar>k\<bar> < 2 ^ 53" by simp
  then have "ulp (nat \<bar>k\<bar>) = 1" by (simp add: ulp.simps)
  then have "round_double k = sgn k * int (nat \<bar>k\<bar>)"
    by (simp add: round_double_def)
  also have "\<dots> = k" by (simp add: sgn_if)
  finally show ?thesis .
qed

lemma js_number_exact:
  assumes "\<bar>k\<bar> < 2 ^ 53"
  shows "js_number k = Num k"
proof -
  have "(2::int) ^ 53 \<le> 2 ^ 1024" by (rule power_increasing) simp_all
  with assms have "k < 2 ^ 1024" "- (2 ^ 1024) < k" by linarith+
  then show ?thesis
    by (simp add: js_number_def round_double_exact [OF assms] Let_def)
qed

text \<open>
  On a non-zero divisor of magnitude at most \<open>2^53\<close>, \<open>mod\<close> is the floored modulo, HOL's
  \<open>mod\<close> on \<open>int\<close>: the sum \<^verbatim>\<open>remainder + divisor\<close> is smaller in magnitude than the
  divisor, hence exact.
\<close>

lemma mod_js_eq_mod:
  assumes "divisor \<noteq> 0" and "\<bar>divisor\<bar> \<le> 2 ^ 53"
  shows "mod_js dividend divisor = Num (dividend mod divisor)"
proof (cases "divisor dvd dividend \<or> sgn dividend = sgn divisor")
  case True
  then have "dividend mod divisor = dividend smod divisor"
    by (auto simp: modulo_int_eq_signed_modulo_int [of dividend divisor])
  with True assms(1) show ?thesis
    by (auto simp: mod_js_def js_remainder_def Let_def smod_zero_iff)
next
  case False
  then have eq: "dividend mod divisor = dividend smod divisor + divisor"
    by (simp add: modulo_int_eq_signed_modulo_int [of dividend divisor])
  have "\<bar>dividend mod divisor\<bar> < \<bar>divisor\<bar>"
    using assms(1) by (rule abs_mod_less)
  with assms(2) have "\<bar>dividend mod divisor\<bar> < 2 ^ 53" by linarith
  then have "js_number (dividend mod divisor) = Num (dividend mod divisor)"
    by (rule js_number_exact)
  with False assms(1) eq show ?thesis
    by (simp add: mod_js_def js_remainder_def Let_def smod_zero_iff)
qed

lemma ulp_values:
  "ulp (Suc 0) = Suc 0" "ulp 1152921504606846975 = 128" "ulp 1152921504606846976 = 256"
  by (simp_all add: ulp.simps)

lemma round_double_values:
  "round_double (- 1) = - 1"
  "round_double 1152921504606846975 = 1152921504606846976"
  "round_double 1152921504606846976 = 1152921504606846976"
  by (simp_all add: round_double_def ulp_values)

text \<open>
  Claim C10, as the specification states it, is about every pair of integers with a
  non-zero divisor. At the dividend \<open>-1\<close> and the divisor \<open>2^60\<close>, both doubles, \<^verbatim>\<open>%\<close> gives
  \<open>-1\<close>, the signs differ, and the sum \<open>-1 + 2^60\<close> is rounded to \<open>2^60\<close>: \<open>mod\<close> returns
  the divisor itself, which is not smaller in magnitude than the divisor.
\<close>

theorem mod_js_large_divisor_counterexample:
  "(2::int) ^ 60 \<noteq> 0 \<and> round_double (- 1) = - 1 \<and> round_double (2 ^ 60) = 2 ^ 60 \<and>
   mod_js (- 1) (2 ^ 60) = Num (2 ^ 60) \<and> \<not> \<bar>(2::int) ^ 60\<bar> < \<bar>2 ^ 60\<bar>"
  by (simp add: mod_js_def js_remainder_def signed_modulo_int_def js_number_def
      round_double_values)

text \<open>
  Claim C10, amended. For every pair of integers \<open>dividend\<close> and \<open>divisor\<close> with
  \<open>divisor\<close> not zero and of magnitude at most \<open>2^53\<close>, \<open>mod\<close> returns a remainder \<open>r\<close>
  with \<open>dividend\<close> congruent to \<open>r\<close> modulo \<open>divisor\<close>, \<open>\<bar>r\<bar> < \<bar>divisor\<bar>\<close>, and \<open>r\<close>
  zero or of the sign of the divisor.
\<close>

theorem mod_js_mathematical:
  assumes "divisor \<noteq> 0" and "\<bar>divisor\<bar> \<le> 2 ^ 53"
  shows "\<exists>r. mod_js dividend divisor = Num r \<and> divisor dvd (dividend - r) \<and>
           \<bar>r\<bar> < \<bar>divisor\<bar> \<and> (r = 0 \<or> sgn r = sgn divisor)"
proof -
  let ?r = "dividend mod divisor"
  have "mod_js dividend divisor = Num ?r"
    by (rule mod_js_eq_mod [OF assms])
  moreover have "divisor dvd (dividend - ?r)"
    by (simp add: dvd_minus_mod)
  moreover have "\<bar>?r\<bar> < \<bar>divisor\<bar>"
    using assms(1) by (rule abs_mod_less)
  moreover have "?r = 0 \<or> sgn ?r = sgn divisor"
  proof (cases "divisor dvd dividend")
    case True
    then show ?thesis by simp
  next
    case False
    with assms(1) show ?thesis by (simp add: sgn_mod)
  qed
  ultimately show ?thesis by (intro exI [of _ ?r] conjI)
qed

text \<open>
  At \<open>-7\<close> and \<open>3\<close> the operator \<^verbatim>\<open>%\<close> gives \<open>-1\<close>, of the sign of the dividend, and
  \<open>mod\<close> gives \<open>2\<close>.
\<close>

theorem mod_js_mathematical_witness:
  "(3::int) \<noteq> 0 \<and> \<bar>3::int\<bar> \<le> 2 ^ 53 \<and> mod_js (-7) 3 = Num 2 \<and>
   js_remainder (-7) 3 = Num (-1) \<and>
   (\<exists>r. mod_js (-7) 3 = Num r \<and> 3 dvd (-7 - r) \<and> \<bar>r\<bar> < \<bar>3\<bar> \<and> (r = 0 \<or> sgn r = sgn 3))"
proof -
  have h: "(3::int) \<noteq> 0" by simp
  have b: "\<bar>3::int\<bar> \<le> 2 ^ 53" by simp
  have e: "mod_js (-7) 3 = Num 2" "js_remainder (-7) 3 = Num (-1)"
    by (simp_all add: mod_js_eq_mod [OF h b] js_remainder_def signed_modulo_int_def)
  from h b e mod_js_mathematical [OF h b, of "-7"] show ?thesis
    by (intro conjI)
qed

section \<open>Properties of \<open>range\<close>\<close>

text \<open>
  The copy with the sign test in closed form: the case of \<open>range_sign\<close> for a value other
  than a number is not reached.
\<close>

lemma range_sign_eq:
  "range_sign args n =
     (if args = [] then Inl AssertionFailed
      else (case range_args args of (start, end', step) \<Rightarrow>
              if end' = start then Inl AssertionFailed
              else Inr (range_sign_loop n start end' (sgn (end' - start)) step)))"
  by (cases "range_args args") (auto simp: range_sign_def assert_def sgn_if)

text \<open>
  Claim C5, as the specification states it: every call to \<open>range\<close> whose end equals its
  start raises the assertion error. The copy of \<^verbatim>\<open>util.js\<close> has no sign test: at
  \<^verbatim>\<open>range(5, 5)\<close> and at \<^verbatim>\<open>range(0)\<close> it raises nothing and yields no value.
\<close>

theorem range_util_degenerate_counterexample:
  "range_args [5, 5] = (5, 5, 1) \<and> range_util [5, 5] 3 = Inr [] \<and>
   range_util [5, 5] 3 \<noteq> Inl AssertionFailed \<and>
   range_args [0] = (0, 0, 1) \<and> range_util [0] 3 = Inr [] \<and>
   range_util [0] 3 \<noteq> Inl AssertionFailed"
  by (simp add: range_args_def range_util_def assert_def numeral_3_eq_3)

text \<open>
  Claim C5, amended. For every call with at least one argument whose end equals its start,
  the copy of \<open>range\<close> with the sign test raises the assertion error when it is iterated, and
  the copy of \<^verbatim>\<open>util.js\<close> yields the empty sequence.
\<close>

theorem range_degenerate:
  assumes "args \<noteq> []" and "range_args args = (start, end', step)" and "end' = start"
  shows "range_sign args n = Inl AssertionFailed \<and> range_util args n = Inr []"
proof
  from assms show "range_sign args n = Inl AssertionFailed"
    by (simp add: range_sign_def assert_def)
  from assms show "range_util args n = Inr []"
    by (cases n) (simp_all add: range_util_def assert_def)
qed

theorem range_degenerate_witness:
  "[5, 5 :: int] \<noteq> [] \<and> range_args [5, 5] = (5, 5, 1) \<and> (5::int) = 5 \<and>
   range_sign [5, 5] 3 = Inl AssertionFailed \<and> range_util [5, 5] 3 = Inr []"
proof -
  have a: "[5, 5 :: int] \<noteq> []" by simp
  have b: "range_args [5, 5] = (5, 5, 1)" by (simp add: range_args_def)
  have c: "(5::int) = 5" by simp
  from a b c range_degenerate [OF a b c, of 3] show ?thesis
    by (intro conjI) simp_all
qed

section \<open>Properties of \<open>switchOnKey\<close>\<close>

lemma switchOnKey_loop_no_match:
  assumes "\<forall>key \<in> set (map fst handlers). \<not> hasOwnProperty object key"
  shows "switchOnKey_loop object handlers foundKey handler = Inr (foundKey, handler)"
  using assms by (induction handlers) auto

text \<open>The loop only acts on the matching entries.\<close>

lemma switchOnKey_loop_matching:
  "switchOnKey_loop object handlers foundKey handler =
   switchOnKey_loop object (matching object handlers) foundKey handler"
proof (induction handlers arbitrary: foundKey handler)
  case Nil
  show ?case by (simp add: matching_def)
next
  case (Cons entry handlers)
  obtain key h where entry: "entry = (key, h)" by (cases entry)
  show ?case
  proof (cases "hasOwnProperty object key")
    case True
    then have "matching object (entry # handlers) = (key, h) # matching object handlers"
      by (simp add: matching_def entry)
    with True Cons.IH [of "String key" h] show ?thesis
      by (simp add: entry split: sum.splits)
  next
    case False
    then have "matching object (entry # handlers) = matching object handlers"
      by (simp add: matching_def entry)
    with False Cons.IH [of foundKey handler] show ?thesis
      by (simp add: entry)
  qed
qed

lemma matching_hasOwnProperty:
  assumes "(key, h) \<in> set (matching object handlers)"
  shows "hasOwnProperty object key"
  using assms by (auto simp: matching_def)

text \<open>When exactly one key matches, its handler is invoked on the object.\<close>

lemma switchOnKey_single_match:
  assumes "matching object handlers = [(key, Function f)]"
  shows "switchOnKey object handlers defaultHandler = Inr (f object)"
proof -
  have own: "hasOwnProperty object key"
    by (rule matching_hasOwnProperty [of key "Function f" object handlers]) (simp add: assms)
  have "switchOnKey_loop object handlers Undefined defaultHandler =
        switchOnKey_loop object [(key, Function f)] Undefined defaultHandler"
    by (subst switchOnKey_loop_matching) (simp add: assms)
  also have "\<dots> = Inr (String key, Function f)"
    using own by (simp add: assert_def)
  finally show ?thesis
    by (simp add: switchOnKey_def assert_def)
qed

text \<open>
  When more than one key matches and the first of them is not the empty string, the
  assertion \<^verbatim>\<open>assert(!foundKey)\<close> fails at the second.
\<close>

lemma switchOnKey_multiple_match:
  assumes "matching object handlers = (key1, h1) # (key2, h2) # rest" and "key1 \<noteq> []"
  shows "switchOnKey object handlers defaultHandler = Inl AssertionFailed"
proof -
  have own: "hasOwnProperty object key1" "hasOwnProperty object key2"
    using matching_hasOwnProperty [of key1 h1 object handlers]
      matching_hasOwnProperty [of key2 h2 object handlers]
    by (simp_all add: assms)
  have "switchOnKey_loop object handlers Undefined defaultHandler =
        switchOnKey_loop object ((key1, h1) # (key2, h2) # rest) Undefined defaultHandler"
    by (subst switchOnKey_loop_matching) (simp add: assms)
  also have "\<dots> = Inl AssertionFailed"
    using own assms(2) by (simp add: assert_def)
  finally show ?thesis
    by (simp add: switchOnKey_def)
qed

text \<open>
  With three or more matching keys, of which at most one is the empty string, it fails by
  the third.
\<close>

lemma switchOnKey_three_matches:
  assumes "distinct (map fst handlers)"
    and "matching object handlers = (key1, h1) # (key2, h2) # (key3, h3) # rest"
  shows "switchOnKey object handlers defaultHandler = Inl AssertionFailed"
proof (cases "key1 = []")
  case False
  with assms(2) show ?thesis by (rule switchOnKey_multiple_match)
next
  case True
  have "distinct (map fst (matching object handlers))"
    unfolding matching_def using assms(1) by (rule distinct_map_filter)
  with assms(2) True have key2: "key2 \<noteq> []" by auto
  have own: "hasOwnProperty object key1" "hasOwnProperty object key2"
      "hasOwnProperty object key3"
    using matching_hasOwnProperty [of key1 h1 object handlers]
      matching_hasOwnProperty [of key2 h2 object handlers]
      matching_hasOwnProperty [of key3 h3 object handlers]
    by (simp_all add: assms(2))
  have "switchOnKey_loop object handlers Undefined defaultHandler =
        switchOnKey_loop object ((key1, h1) # (key2, h2) # (key3, h3) # rest)
          Undefined defaultHandler"
    by (subst switchOnKey_loop_matching) (simp add: assms(2))
  also have "\<dots> = Inl AssertionFailed"
    using own True key2 by (simp add: assert_def)
  finally show ?thesis
    by (simp add: switchOnKey_def)
qed

text \<open>
  Claim C1 says that \<open>switchOnKey\<close> fails with the assertion error whenever more than one
  key matches. The test \<^verbatim>\<open>assert(!foundKey)\<close> takes the key found so far as a condition, and
  the empty string, a key an object can have, is false as a condition. With the object
  \<^verbatim>\<open>{"": 0, a: 0}\<close> and the mapping \<^verbatim>\<open>{"": h1, a: h2}\<close> both keys match, the empty one first,
  and the call returns the result of \<open>h2\<close> instead of failing.
\<close>

theorem switchOnKey_empty_key_second_match:
  "distinct (map fst [('''', Function (\<lambda>object. 1)), (''a'', Function (\<lambda>object. 2 :: int))]) \<and>
   length (matching [('''', 0 :: int), (''a'', 0)]
     [('''', Function (\<lambda>object. 1)), (''a'', Function (\<lambda>object. 2 :: int))]) = 2 \<and>
   switchOnKey [('''', 0 :: int), (''a'', 0)]
     [('''', Function (\<lambda>object. 1)), (''a'', Function (\<lambda>object. 2 :: int))]
     Undefined = Inr 2"
  by (simp add: switchOnKey_def matching_def hasOwnProperty_def assert_def)

text \<open>
  Claim C4. For every object and handler mapping where no key of the mapping is an own
  property of the object, \<open>switchOnKey\<close> invokes the default handler on the object and
  returns its result; when the default handler is absent (\<^verbatim>\<open>undefined\<close>) or another value
  that is false as a condition, \<open>switchOnKey\<close> fails with the assertion error.
\<close>

theorem switchOnKey_no_match:
  assumes "\<forall>key \<in> set (map fst handlers). \<not> hasOwnProperty object key"
  shows "(defaultHandler = Function f \<longrightarrow>
            switchOnKey object handlers defaultHandler = Inr (f object)) \<and>
         (\<not> ToBoolean defaultHandler \<longrightarrow>
            switchOnKey object handlers defaultHandler = Inl AssertionFailed)"
  using switchOnKey_loop_no_match [OF assms, of Undefined defaultHandler]
  by (auto simp: switchOnKey_def assert_def)

theorem switchOnKey_no_match_witness:
  "\<not> hasOwnProperty [(''c'', 1 :: int)] ''a'' \<and> \<not> hasOwnProperty [(''c'', 1 :: int)] ''b'' \<and>
   switchOnKey [(''c'', 1 :: int)] [(''a'', Function (\<lambda>object. 1 :: int)), (''b'', Function (\<lambda>object. 2))]
     (Function (\<lambda>object. 3)) = Inr 3 \<and>
   \<not> ToBoolean (Undefined :: ((string \<times> int) list \<Rightarrow> int) val) \<and>
   switchOnKey [(''c'', 1 :: int)] [(''a'', Function (\<lambda>object. 1 :: int)), (''b'', Function (\<lambda>object. 2))]
     Undefined = Inl AssertionFailed"
proof -
  let ?hs = "[(''a'', Function (\<lambda>object. 1 :: int)), (''b'', Function (\<lambda>object. 2))]
               :: (string \<times> ((string \<times> int) list \<Rightarrow> int) val) list"
  let ?ob = "[(''c'', 1 :: int)]"
  have own: "\<not> hasOwnProperty ?ob ''a''" "\<not> hasOwnProperty ?ob ''b''"
    by (simp_all add: hasOwnProperty_def)
  then have h: "\<forall>key \<in> set (map fst ?hs). \<not> hasOwnProperty ?ob key"
    by simp
  from switchOnKey_no_match [OF h, of "Function (\<lambda>object. 3)" "\<lambda>object. 3"]
  have 1: "switchOnKey ?ob ?hs (Function (\<lambda>object. 3)) = Inr 3" by simp
  from switchOnKey_no_match [OF h, of Undefined]
  have 2: "switchOnKey ?ob ?hs Undefined = Inl AssertionFailed" by simp
  from own 1 2 show ?thesis by simp
qed

end
